theory Spec2Isabelle
  imports Main "HOL-Library.AList"
begin

section \<open>Python values used by the rate limiter\<close>

text \<open>
  \<^verbatim>\<open>str(n)\<close> for a Python integer: the decimal digits, most significant first, with a
  leading minus sign for a negative number.
\<close>

definition digit_char :: "nat \<Rightarrow> char" where
  "digit_char d = ''0123456789'' ! d"

fun str_nat :: "nat \<Rightarrow> string" where
  "str_nat n = (if n < 10 then [digit_char n] else str_nat (n div 10) @ [digit_char (n mod 10)])"

declare str_nat.simps [simp del]

definition str :: "int \<Rightarrow> string" where
  "str i = (if i < 0 then CHR ''-'' # str_nat (nat (- i)) else str_nat (nat i))"

text \<open>
  \<^verbatim>\<open>s.strip()\<close>: the characters Python counts as white space among the code points
  below 256 (header values are decoded as Latin-1) are removed from both ends.
\<close>

definition isspace :: "char \<Rightarrow> bool" where
  "isspace c = ((of_char c :: nat) \<in> {9, 10, 11, 12, 13, 28, 29, 30, 31, 32, 133, 160})"

definition strip :: "string \<Rightarrow> string" where
  "strip s = rev (dropWhile isspace (rev (dropWhile isspace s)))"

text \<open>
  \<^verbatim>\<open>s.split(",")[0]\<close>: the text before the first comma (all of \<open>s\<close> when it has none);
  \<^verbatim>\<open>split\<close> never returns an empty list, so the index is always in range.
\<close>

definition split_comma_first :: "string \<Rightarrow> string" where
  "split_comma_first s = takeWhile (\<lambda>c. c \<noteq> CHR '','') s"

definition startswith :: "string \<Rightarrow> string \<Rightarrow> bool" where
  "startswith s p = (take (length p) s = p)"

section \<open>The backing store\<close>

text \<open>
  The middleware talks to Redis through four commands. A sorted set is a collection of
  members, each with a score; a member occurs at most once, and adding a member that is
  already there replaces its score. It is modelled as an association list from member to
  score (the order of the list carries no meaning); a key that holds no sorted set reads
  as the empty list, and Redis removes a key, with its time-to-live, as soon as its sorted
  set becomes empty. \<^verbatim>\<open>EXPIRE\<close> does nothing to a key that does not exist, deletes the
  key at once when the timeout is zero or negative, and otherwise sets its time-to-live.

  A command can raise (the store is unreachable, the connection times out). The argument
  \<open>down\<close> says which commands raise during the call at hand; a command that raises leaves
  the data as it was. The field \<open>calls\<close> is the record of the commands issued, each with
  whether it raised, as a test double of the client would keep it.
\<close>

type_synonym zset = "(string \<times> int) list"

datatype store_op = ZRemRangeByScore | ZCard | ZAdd | Expire

datatype store_error = RedisError store_op

record redis =
  zsets :: "string \<Rightarrow> zset"
  ttls :: "string \<rightharpoonup> int"
  calls :: "(store_op \<times> bool) list"

definition empty_redis :: redis where
  "empty_redis = \<lparr>zsets = (\<lambda>_. []), ttls = Map.empty, calls = []\<rparr>"

definition in_range :: "int \<Rightarrow> int \<Rightarrow> string \<times> int \<Rightarrow> bool" where
  "in_range lo hi e = (lo \<le> snd e \<and> snd e \<le> hi)"

definition zremrangebyscore ::
  "(store_op \<Rightarrow> bool) \<Rightarrow> string \<Rightarrow> int \<Rightarrow> int \<Rightarrow> redis \<Rightarrow> (store_error + nat) \<times> redis" where
  "zremrangebyscore down key lo hi r =
     (if down ZRemRangeByScore
      then (Inl (RedisError ZRemRangeByScore), r\<lparr>calls := calls r @ [(ZRemRangeByScore, True)]\<rparr>)
      else
        (let kept = filter (\<lambda>e. \<not> in_range lo hi e) (zsets r key)
         in (Inr (length (zsets r key) - length kept),
             r\<lparr>zsets := (zsets r)(key := kept),
               ttls := (if kept = [] then (ttls r)(key := None) else ttls r),
               calls := calls r @ [(ZRemRangeByScore, False)]\<rparr>)))"

definition zcard :: "(store_op \<Rightarrow> bool) \<Rightarrow> string \<Rightarrow> redis \<Rightarrow> (store_error + nat) \<times> redis" where
  "zcard down key r =
     (if down ZCard
      then (Inl (RedisError ZCard), r\<lparr>calls := calls r @ [(ZCard, True)]\<rparr>)
      else (Inr (length (zsets r key)), r\<lparr>calls := calls r @ [(ZCard, False)]\<rparr>))"

definition zadd ::
  "(store_op \<Rightarrow> bool) \<Rightarrow> string \<Rightarrow> string \<Rightarrow> int \<Rightarrow> redis \<Rightarrow> (store_error + nat) \<times> redis" where
  "zadd down key member score r =
     (if down ZAdd
      then (Inl (RedisError ZAdd), r\<lparr>calls := calls r @ [(ZAdd, True)]\<rparr>)
      else (Inr (if member \<in> fst ` set (zsets r key) then 0 else 1),
            r\<lparr>zsets := (zsets r)(key := AList.update member score (zsets r key)),
              calls := calls r @ [(ZAdd, False)]\<rparr>))"

definition expire ::
  "(store_op \<Rightarrow> bool) \<Rightarrow> string \<Rightarrow> int \<Rightarrow> redis \<Rightarrow> (store_error + bool) \<times> redis" where
  "expire down key seconds r =
     (if down Expire
      then (Inl (RedisError Expire), r\<lparr>calls := calls r @ [(Expire, True)]\<rparr>)
      else if zsets r key = []
      then (Inr False, r\<lparr>calls := calls r @ [(Expire, False)]\<rparr>)
      else if seconds \<le> 0
      then (Inr True, r\<lparr>zsets := (zsets r)(key := []),
                        ttls := (ttls r)(key := None),
                        calls := calls r @ [(Expire, False)]\<rparr>)
      else (Inr True, r\<lparr>ttls := (ttls r)(key \<mapsto> seconds),
                        calls := calls r @ [(Expire, False)]\<rparr>))"

text \<open>What the store does on its own when a key's time-to-live runs out: the key is deleted.\<close>

definition key_expired :: "string \<Rightarrow> redis \<Rightarrow> redis" where
  "key_expired key r = r\<lparr>zsets := (zsets r)(key := []), ttls := (ttls r)(key := None)\<rparr>"

section \<open>The sliding window counter\<close>

record settings =
  RATE_LIMIT_REQUESTS :: int
  RATE_LIMIT_PERIOD :: int

text \<open>
  The body of the \<^verbatim>\<open>try\<close> block of \<^verbatim>\<open>check_rate_limit\<close>. The clock reading
  \<^verbatim>\<open>int(time.time())\<close> is the argument \<open>current_time\<close>. The first command that raises
  ends the block with its error; the store keeps what the earlier commands did.
\<close>

definition try_block ::
  "settings \<Rightarrow> (store_op \<Rightarrow> bool) \<Rightarrow> int \<Rightarrow> string \<Rightarrow> redis \<Rightarrow> (store_error + bool) \<times> redis" where
  "try_block cfg down current_time client_id r =
     (let key = ''rate_limit:'' @ client_id;
          window_start = current_time - RATE_LIMIT_PERIOD cfg
      in case zremrangebyscore down key 0 window_start r of
           (Inl e, r1) \<Rightarrow> (Inl e, r1)
         | (Inr _, r1) \<Rightarrow>
             (case zcard down key r1 of
                (Inl e, r2) \<Rightarrow> (Inl e, r2)
              | (Inr request_count, r2) \<Rightarrow>
                  if int request_count \<ge> RATE_LIMIT_REQUESTS cfg then (Inr False, r2)
                  else
                    (case zadd down key (str current_time) current_time r2 of
                       (Inl e, r3) \<Rightarrow> (Inl e, r3)
                     | (Inr _, r3) \<Rightarrow>
                         (case expire down key (RATE_LIMIT_PERIOD cfg) r3 of
                            (Inl e, r4) \<Rightarrow> (Inl e, r4)
                          | (Inr _, r4) \<Rightarrow> (Inr True, r4)))))"

text \<open>\<^verbatim>\<open>except Exception\<close>: any error of the block is answered with \<^verbatim>\<open>True\<close>.\<close>

definition check_rate_limit ::
  "settings \<Rightarrow> (store_op \<Rightarrow> bool) \<Rightarrow> int \<Rightarrow> string \<Rightarrow> redis \<Rightarrow> bool \<times> redis" where
  "check_rate_limit cfg down current_time client_id r =
     (case try_block cfg down current_time client_id r of
        (Inl e, r') \<Rightarrow> (True, r')
      | (Inr admitted, r') \<Rightarrow> (admitted, r'))"

text \<open>The store with every command answering.\<close>

definition up :: "store_op \<Rightarrow> bool" where
  "up op = False"

section \<open>The admission gate\<close>

text \<open>
  What the middleware reads of a request: the type of the ASGI scope, the path of the URL,
  the \<^verbatim>\<open>Authorization\<close> and \<^verbatim>\<open>X-Forwarded-For\<close> headers (\<open>None\<close> when the header is
  absent) and the host of \<^verbatim>\<open>request.client\<close> (\<open>None\<close> when there is no client).
\<close>

record request =
  scope_type :: string
  path :: string
  authorization :: "string option"
  x_forwarded_for :: "string option"
  client :: "string option"

datatype json = JStr string | JInt int

text \<open>
  A response: the status, the JSON object of the body, and the headers handed to the
  constructor. \<^verbatim>\<open>JSONResponse(status_code=..., content=...)\<close> is given none; the content
  type and length that the framework derives from the body are not part of the model.
\<close>

record response =
  status_code :: int
  content :: "(string \<times> json) list"
  headers :: "(string \<times> string) list"

definition JSONResponse :: "int \<Rightarrow> (string \<times> json) list \<Rightarrow> response" where
  "JSONResponse code body = \<lparr>status_code = code, content = body, headers = []\<rparr>"

text \<open>The middleware either hands the request on to the application or answers it itself.\<close>

datatype outcome = CallApp | Respond response

text \<open>
  \<^verbatim>\<open>get_client_id\<close>. The SHA-256 digest comes from the standard library and is the
  argument \<open>sha256_hexdigest\<close>. A Python condition on a string is false for \<^verbatim>\<open>None\<close>
  and for the empty string.
\<close>

definition get_client_id :: "(string \<Rightarrow> string) \<Rightarrow> request \<Rightarrow> string" where
  "get_client_id sha256_hexdigest request =
     (let bearer =
            (case authorization request of
               None \<Rightarrow> None
             | Some a \<Rightarrow> if a \<noteq> [] \<and> startswith a ''Bearer '' then Some a else None)
      in case bearer of
           Some a \<Rightarrow> ''user:'' @ take 16 (sha256_hexdigest a)
         | None \<Rightarrow>
             (let client_ip = (case client request of Some host \<Rightarrow> host | None \<Rightarrow> ''unknown'');
                  client_ip =
                    (case x_forwarded_for request of
                       None \<Rightarrow> client_ip
                     | Some forwarded_for \<Rightarrow>
                         if forwarded_for \<noteq> [] then strip (split_comma_first forwarded_for)
                         else client_ip)
              in ''ip:'' @ client_ip))"

text \<open>\<^verbatim>\<open>__call__\<close>, with the clock reading of the check as an argument.\<close>

definition call ::
  "(string \<Rightarrow> string) \<Rightarrow> settings \<Rightarrow> (store_op \<Rightarrow> bool) \<Rightarrow> int \<Rightarrow> request \<Rightarrow> redis
     \<Rightarrow> outcome \<times> redis" where
  "call sha256_hexdigest cfg down current_time request r =
     (if scope_type request \<noteq> ''http'' then (CallApp, r)
      else if path request \<in> set [''/health'', ''/docs'', ''/redoc'', ''/openapi.json'']
      then (CallApp, r)
      else
        (let client_id = get_client_id sha256_hexdigest request;
             (admitted, r') = check_rate_limit cfg down current_time client_id r
         in if \<not> admitted
            then (Respond (JSONResponse 429
                    [(''error'', JStr ''Rate limit exceeded''),
                     (''message'', JStr (''Maximum '' @ str (RATE_LIMIT_REQUESTS cfg)
                        @ '' requests per '' @ str (RATE_LIMIT_PERIOD cfg) @ '' seconds'')),
                     (''retry_after'', JInt (RATE_LIMIT_PERIOD cfg))]), r')
            else (CallApp, r')))"

section \<open>Runs of the limiter\<close>

text \<open>The decisions of successive calls for one client at the given clock readings.\<close>

fun decisions :: "settings \<Rightarrow> string \<Rightarrow> int list \<Rightarrow> redis \<Rightarrow> bool list" where
  "decisions cfg client_id [] r = []"
| "decisions cfg client_id (t # ts) r =
     (let (admitted, r') = check_rate_limit cfg up t client_id r
      in admitted # decisions cfg client_id ts r')"

text \<open>
  The stores that the middleware can produce from the empty one: by calls for any client,
  with any commands raising, at clock readings since the epoch (not negative), and by the
  store deleting a key of its own accord.
\<close>

inductive reachable :: "settings \<Rightarrow> redis \<Rightarrow> bool" for cfg :: settings where
  start: "reachable cfg empty_redis"
| request: "reachable cfg r \<Longrightarrow> 0 \<le> t \<Longrightarrow>
            reachable cfg (snd (check_rate_limit cfg down t client_id r))"
| expiry: "reachable cfg r \<Longrightarrow> reachable cfg (key_expired key r)"

text \<open>The scores held for a key, and the shape of a sorted set that only this code wrote.\<close>

definition timestamps :: "redis \<Rightarrow> string \<Rightarrow> int set" where
  "timestamps r key = snd ` set (zsets r key)"

definition stamped :: "zset \<Rightarrow> bool" where
  "stamped z = (distinct (map fst z) \<and> (\<forall>e \<in> set z. 0 \<le> snd e \<and> fst e = str (snd e)))"

text \<open>The defaults of \<^verbatim>\<open>core/config.py\<close>, and the settings of the specification's scenario.\<close>

definition default_settings :: settings where
  "default_settings = \<lparr>RATE_LIMIT_REQUESTS = 100, RATE_LIMIT_PERIOD = 60\<rparr>"

definition scenario_settings :: settings where
  "scenario_settings = \<lparr>RATE_LIMIT_REQUESTS = 2, RATE_LIMIT_PERIOD = 60\<rparr>"

definition full_store :: redis where
  "full_store =
     \<lparr>zsets = (\<lambda>_. [])(''rate_limit:ip:203.0.113.5'' := [(''1000'', 1000), (''1001'', 1001)]),
      ttls = [''rate_limit:ip:203.0.113.5'' \<mapsto> 60], calls = []\<rparr>"

definition anonymous_request :: request where
  "anonymous_request =
     \<lparr>scope_type = ''http'', path = ''/api/v1/accounts'', authorization = None,
      x_forwarded_for = Some ''203.0.113.5, 10.0.0.1'', client = Some ''10.0.0.1''\<rparr>"

definition empty_forwarded_request :: request where
  "empty_forwarded_request =
     \<lparr>scope_type = ''http'', path = ''/api/v1/accounts'', authorization = None,
      x_forwarded_for = Some '''', client = Some ''198.51.100.7''\<rparr>"

definition one_admission_store :: redis where
  "one_admission_store =
     snd (check_rate_limit scenario_settings up 1000 ''ip:203.0.113.5'' empty_redis)"

section \<open>Decimal rendering\<close>

lemma str_nat_small: "n < 10 \<Longrightarrow> str_nat n = [digit_char n]"
  by (simp add: str_nat.simps)

lemma str_nat_big: "10 \<le> n \<Longrightarrow> str_nat n = str_nat (n div 10) @ [digit_char (n mod 10)]"
  by (subst str_nat.simps) simp

lemmas str_eval = str_def str_nat_small str_nat_big digit_char_def

lemma str_nat_nonempty: "str_nat n \<noteq> []"
  by (subst str_nat.simps) simp

lemma digit_char_inj: "a < 10 \<Longrightarrow> b < 10 \<Longrightarrow> digit_char a = digit_char b \<Longrightarrow> a = b"
proof -
  assume a: "a < 10" and b: "b < 10" and e: "digit_char a = digit_char b"
  have d: "distinct ''0123456789''" by simp
  have "length ''0123456789'' = 10" by simp
  with a b e d show "a = b"
    unfolding digit_char_def by (metis nth_eq_iff_index_eq)
qed

lemma digit_char_not_minus: "d < 10 \<Longrightarrow> digit_char d \<noteq> CHR ''-''"
proof -
  assume "d < 10"
  then have "digit_char d \<in> set ''0123456789''"
    unfolding digit_char_def by (intro nth_mem) simp
  then show ?thesis by auto
qed

lemma str_nat_inj: "str_nat a = str_nat b \<Longrightarrow> a = b"
proof (induction a arbitrary: b rule: str_nat.induct)
  case (1 n)
  show ?case
  proof (cases "n < 10")
    case small: True
    show ?thesis
    proof (cases "b < 10")
      case True
      with small "1.prems" show ?thesis
        by (simp add: str_nat_small digit_char_inj)
    next
      case False
      with small "1.prems" show ?thesis
        by (simp add: str_nat_small str_nat_big str_nat_nonempty [symmetric])
    qed
  next
    case big: False
    show ?thesis
    proof (cases "b < 10")
      case True
      with big "1.prems" show ?thesis
        by (simp add: str_nat_small str_nat_big str_nat_nonempty)
    next
      case False
      with big "1.prems" have e1: "str_nat (n div 10) = str_nat (b div 10)"
        and e2: "digit_char (n mod 10) = digit_char (b mod 10)"
        by (simp_all add: str_nat_big)
      from "1.IH" [OF big e1] have "n div 10 = b div 10" .
      moreover from e2 have "n mod 10 = b mod 10"
        by (intro digit_char_inj) simp_all
      ultimately show ?thesis
        by (metis div_mult_mod_eq)
    qed
  qed
qed

lemma hd_str_nat: "hd (str_nat n) \<noteq> CHR ''-''"
proof (induction n rule: str_nat.induct)
  case (1 n)
  show ?case
  proof (cases "n < 10")
    case True
    then show ?thesis by (simp add: str_nat_small digit_char_not_minus)
  next
    case False
    with "1.IH" show ?thesis
      by (simp add: str_nat_big str_nat_nonempty)
  qed
qed

lemma str_inj: "str a = str b \<Longrightarrow> a = b"
proof -
  assume e: "str a = str b"
  have neg: "hd (str i) = CHR ''-'' \<longleftrightarrow> i < 0" for i
    using hd_str_nat [of "nat i"] by (simp add: str_def)
  from e have s: "a < 0 \<longleftrightarrow> b < 0" using neg by metis
  show "a = b"
  proof (cases "a < 0")
    case True
    with s e have "str_nat (nat (- a)) = str_nat (nat (- b))" by (simp add: str_def)
    then have "nat (- a) = nat (- b)" by (rule str_nat_inj)
    with True s show ?thesis by simp
  next
    case False
    with s e have "str_nat (nat a) = str_nat (nat b)" by (simp add: str_def)
    then have "nat a = nat b" by (rule str_nat_inj)
    with False s show ?thesis by simp
  qed
qed

section \<open>Rejected calls\<close>

text \<open>
  C7. When the prune and the count are answered and the count after the prune has reached
  \<^verbatim>\<open>RATE_LIMIT_REQUESTS\<close>, the call returns \<^verbatim>\<open>False\<close> and the store is left as the
  prune left it: the sorted sets and the times-to-live are those after the prune, no
  member was added to the key's set, and the only commands issued are the prune and the
  count, so neither \<^verbatim>\<open>zadd\<close> nor \<^verbatim>\<open>expire\<close> ran.
\<close>

theorem check_rate_limit_reject_records_nothing:
  assumes "\<not> down ZRemRangeByScore" and "\<not> down ZCard"
    and "r1 = snd (zremrangebyscore down (''rate_limit:'' @ client_id) 0
                     (current_time - RATE_LIMIT_PERIOD cfg) r)"
    and "int (length (zsets r1 (''rate_limit:'' @ client_id))) \<ge> RATE_LIMIT_REQUESTS cfg"
    and "r' = snd (check_rate_limit cfg down current_time client_id r)"
  shows "fst (check_rate_limit cfg down current_time client_id r) = False
       \<and> zsets r' = zsets r1 \<and> ttls r' = ttls r1
       \<and> set (zsets r' (''rate_limit:'' @ client_id)) \<subseteq> set (zsets r (''rate_limit:'' @ client_id))
       \<and> calls r' = calls r @ [(ZRemRangeByScore, False), (ZCard, False)]"
  using assms
  by (simp add: check_rate_limit_def try_block_def zremrangebyscore_def zcard_def Let_def)

theorem check_rate_limit_reject_records_nothing_witness:
  "fst (check_rate_limit scenario_settings up 1002 ''ip:203.0.113.5'' full_store) = False
   \<and> zsets (snd (check_rate_limit scenario_settings up 1002 ''ip:203.0.113.5'' full_store))
        ''rate_limit:ip:203.0.113.5'' = [(''1000'', 1000), (''1001'', 1001)]
   \<and> calls (snd (check_rate_limit scenario_settings up 1002 ''ip:203.0.113.5'' full_store))
        = [(ZRemRangeByScore, False), (ZCard, False)]"
  using check_rate_limit_reject_records_nothing
    [of up _ "''ip:203.0.113.5''" 1002 scenario_settings full_store, OF _ _ refl _ refl]
  by (simp add: up_def scenario_settings_def full_store_def zremrangebyscore_def in_range_def)

section \<open>Unfolding the model\<close>

lemmas store_defs = zremrangebyscore_def zcard_def zadd_def expire_def

lemmas check_defs = check_rate_limit_def try_block_def Let_def

section \<open>Failing open\<close>

text \<open>
  C2. If any command that a call issues raises (the record of commands shows a raised
  prune, count, record or expiry-set among those this call added), the call returns
  \<^verbatim>\<open>True\<close>; likewise whenever the \<^verbatim>\<open>try\<close> block ends with an error. The result of
  \<open>check_rate_limit\<close> is a plain truth value, so no error reaches the caller.
\<close>

theorem check_rate_limit_fail_open:
  "((\<exists>op. (op, True) \<in> set (drop (length (calls r))
        (calls (snd (check_rate_limit cfg down current_time client_id r)))))
      \<longrightarrow> fst (check_rate_limit cfg down current_time client_id r) = True)
   \<and> (isl (fst (try_block cfg down current_time client_id r))
      \<longrightarrow> fst (check_rate_limit cfg down current_time client_id r) = True)"
  by (auto simp: check_defs store_defs split: if_splits)

theorem check_rate_limit_fail_open_witness:
  "(ZCard, True) \<in> set (drop (length (calls empty_redis))
        (calls (snd (check_rate_limit default_settings (\<lambda>op. op = ZCard) 1700000000
           ''ip:203.0.113.5'' empty_redis))))
   \<and> isl (fst (try_block default_settings (\<lambda>op. op = ZCard) 1700000000
           ''ip:203.0.113.5'' empty_redis))
   \<and> fst (check_rate_limit default_settings (\<lambda>op. op = ZCard) 1700000000
           ''ip:203.0.113.5'' empty_redis) = True"
  using check_rate_limit_fail_open
    [of empty_redis default_settings "\<lambda>op. op = ZCard" 1700000000 "''ip:203.0.113.5''"]
  by (simp add: check_defs store_defs empty_redis_def default_settings_def)

section \<open>Exempt paths\<close>

text \<open>
  C9. A request whose path is one of the exempt paths (health check, the two pages of
  interactive documentation, the schema) is handed to the application with the store
  exactly as it was, its record of commands included: no command is issued. The result
  is the same for every digest function, header and peer address, so no key enters it.
\<close>

theorem exempt_path_bypasses_gate:
  assumes "path request \<in> {''/health'', ''/docs'', ''/redoc'', ''/openapi.json''}"
  shows "call sha256_hexdigest cfg down current_time request r = (CallApp, r)"
  using assms by (simp add: call_def)

theorem exempt_path_bypasses_gate_witness:
  "call (\<lambda>s. s) default_settings (\<lambda>op. True) 1700000000
     \<lparr>scope_type = ''http'', path = ''/health'', authorization = None,
      x_forwarded_for = None, client = Some ''203.0.113.5''\<rparr> full_store
   = (CallApp, full_store)"
  using exempt_path_bypasses_gate
    [of "\<lparr>scope_type = ''http'', path = ''/health'', authorization = None,
          x_forwarded_for = None, client = Some ''203.0.113.5''\<rparr>"
        "\<lambda>s. s" default_settings "\<lambda>op. True" 1700000000 full_store]
  by simp

section \<open>Independence of keys\<close>

text \<open>
  C10. A call for client \<open>k1\<close> leaves the sorted set, hence the count, and the
  time-to-live of every other client \<open>k2\<close> as they were, whatever commands raise; and
  its decision is the same in any two stores that hold the same sorted set for \<open>k1\<close>,
  so it does not depend on what is stored for \<open>k2\<close>.
\<close>

theorem keys_do_not_interfere:
  assumes "k1 \<noteq> k2"
    and "r' = snd (check_rate_limit cfg down current_time k1 r)"
  shows "zsets r' (''rate_limit:'' @ k2) = zsets r (''rate_limit:'' @ k2)
       \<and> length (zsets r' (''rate_limit:'' @ k2)) = length (zsets r (''rate_limit:'' @ k2))
       \<and> ttls r' (''rate_limit:'' @ k2) = ttls r (''rate_limit:'' @ k2)
       \<and> (\<forall>s. zsets s (''rate_limit:'' @ k1) = zsets r (''rate_limit:'' @ k1)
              \<longrightarrow> fst (check_rate_limit cfg down current_time k1 s)
                = fst (check_rate_limit cfg down current_time k1 r))"
  using assms
  by (auto simp: check_defs store_defs split: if_splits)

theorem keys_do_not_interfere_witness:
  "''ip:198.51.100.7'' \<noteq> ''ip:203.0.113.5''
   \<and> zsets (snd (check_rate_limit scenario_settings up 1002 ''ip:198.51.100.7'' full_store))
        ''rate_limit:ip:203.0.113.5'' = [(''1000'', 1000), (''1001'', 1001)]
   \<and> ttls (snd (check_rate_limit scenario_settings up 1002 ''ip:198.51.100.7'' full_store))
        ''rate_limit:ip:203.0.113.5'' = Some 60
   \<and> fst (check_rate_limit scenario_settings up 1002 ''ip:198.51.100.7'' empty_redis)
     = fst (check_rate_limit scenario_settings up 1002 ''ip:198.51.100.7'' full_store)"
proof -
  have ne: "''ip:198.51.100.7'' \<noteq> ''ip:203.0.113.5''" by simp
  have same: "zsets empty_redis (''rate_limit:'' @ ''ip:198.51.100.7'')
            = zsets full_store (''rate_limit:'' @ ''ip:198.51.100.7'')"
    by (simp add: empty_redis_def full_store_def)
  note k = keys_do_not_interfere [OF ne refl, of scenario_settings up 1002 full_store]
  from k have a: "zsets (snd (check_rate_limit scenario_settings up 1002 ''ip:198.51.100.7'' full_store))
        (''rate_limit:'' @ ''ip:203.0.113.5'') = zsets full_store (''rate_limit:'' @ ''ip:203.0.113.5'')"
    by (rule conjunct1)
  from k have b: "ttls (snd (check_rate_limit scenario_settings up 1002 ''ip:198.51.100.7'' full_store))
        (''rate_limit:'' @ ''ip:203.0.113.5'') = ttls full_store (''rate_limit:'' @ ''ip:203.0.113.5'')"
    by blast
  from k same have c: "fst (check_rate_limit scenario_settings up 1002 ''ip:198.51.100.7'' empty_redis)
     = fst (check_rate_limit scenario_settings up 1002 ''ip:198.51.100.7'' full_store)"
    by blast
  from a have a': "zsets (snd (check_rate_limit scenario_settings up 1002 ''ip:198.51.100.7'' full_store))
        ''rate_limit:ip:203.0.113.5'' = [(''1000'', 1000), (''1001'', 1001)]"
    by (simp add: full_store_def)
  from b have b': "ttls (snd (check_rate_limit scenario_settings up 1002 ''ip:198.51.100.7'' full_store))
        ''rate_limit:ip:203.0.113.5'' = Some 60"
    by (simp add: full_store_def)
  from ne a' b' c show ?thesis by blast
qed

section \<open>The rejection\<close>

lemma anonymous_request_id: "get_client_id h anonymous_request = ''ip:203.0.113.5''"
  by (simp add: get_client_id_def anonymous_request_def strip_def split_comma_first_def isspace_def)

lemma full_store_rejects:
  "check_rate_limit scenario_settings up 1002 ''ip:203.0.113.5'' full_store
   = (False, full_store\<lparr>calls := [(ZRemRangeByScore, False), (ZCard, False)]\<rparr>)"
  by (simp add: check_defs store_defs up_def scenario_settings_def full_store_def in_range_def)

text \<open>
  C6, as amended. For an HTTP request on a path that is not exempt whose check returns
  \<^verbatim>\<open>False\<close>, the middleware answers itself, with status 429 and a body that holds the
  error classification, a message naming \<^verbatim>\<open>RATE_LIMIT_REQUESTS\<close> and
  \<^verbatim>\<open>RATE_LIMIT_PERIOD\<close>, and \<^verbatim>\<open>retry_after\<close> equal to \<^verbatim>\<open>RATE_LIMIT_PERIOD\<close>. The
  retry hint is in the body only: the response is built without any header of its own.
\<close>

theorem rejection_response:
  assumes "scope_type request = ''http''"
    and "path request \<notin> {''/health'', ''/docs'', ''/redoc'', ''/openapi.json''}"
    and "fst (check_rate_limit cfg down current_time
                (get_client_id sha256_hexdigest request) r) = False"
  shows "\<exists>resp. fst (call sha256_hexdigest cfg down current_time request r) = Respond resp
       \<and> status_code resp = 429
       \<and> map_of (content resp) ''error'' = Some (JStr ''Rate limit exceeded'')
       \<and> map_of (content resp) ''message''
           = Some (JStr (''Maximum '' @ str (RATE_LIMIT_REQUESTS cfg) @ '' requests per ''
                @ str (RATE_LIMIT_PERIOD cfg) @ '' seconds''))
       \<and> map_of (content resp) ''retry_after'' = Some (JInt (RATE_LIMIT_PERIOD cfg))
       \<and> headers resp = []"
  using assms
  by (cases "check_rate_limit cfg down current_time (get_client_id sha256_hexdigest request) r")
     (simp add: call_def JSONResponse_def)

theorem rejection_response_witness:
  "scope_type anonymous_request = ''http''
   \<and> path anonymous_request \<notin> {''/health'', ''/docs'', ''/redoc'', ''/openapi.json''}
   \<and> (\<exists>resp. fst (call (\<lambda>s. s) scenario_settings up 1002 anonymous_request full_store)
               = Respond resp
       \<and> status_code resp = 429
       \<and> map_of (content resp) ''error'' = Some (JStr ''Rate limit exceeded'')
       \<and> map_of (content resp) ''message'' = Some (JStr ''Maximum 2 requests per 60 seconds'')
       \<and> map_of (content resp) ''retry_after'' = Some (JInt 60)
       \<and> headers resp = [])"
proof -
  have h: "scope_type anonymous_request = ''http''" by (simp add: anonymous_request_def)
  have p: "path anonymous_request \<notin> {''/health'', ''/docs'', ''/redoc'', ''/openapi.json''}"
    by (simp add: anonymous_request_def)
  have rej: "fst (check_rate_limit scenario_settings up 1002
               (get_client_id (\<lambda>s. s) anonymous_request) full_store) = False"
    by (simp add: anonymous_request_id full_store_rejects)
  from rejection_response [OF h p rej] h p show ?thesis
    by (simp add: scenario_settings_def str_eval)
qed

text \<open>
  C6, as stated, fails: the rejection of the third call of a client within its window is
  the response below, whose headers are empty, so it carries no \<^verbatim>\<open>Retry-After\<close> header.
\<close>

theorem rejection_has_no_retry_after_header:
  "fst (call (\<lambda>s. s) scenario_settings up 1002 anonymous_request full_store)
   = Respond \<lparr>status_code = 429,
       content = [(''error'', JStr ''Rate limit exceeded''),
                  (''message'', JStr ''Maximum 2 requests per 60 seconds''),
                  (''retry_after'', JInt 60)],
       headers = []\<rparr>"
  by (simp add: call_def anonymous_request_id full_store_rejects JSONResponse_def)
     (simp add: anonymous_request_def scenario_settings_def str_eval)

section \<open>The identity resolver\<close>

text \<open>
  C8, as amended. For a request without a bearer credential the key is \<open>ip:\<close> followed
  by the address: the first comma-separated token of the forwarded-for header, trimmed of
  white space, when that header is present and not empty; otherwise the peer address;
  otherwise the literal \<open>unknown\<close>. The witness is the scenario of the specification:
  forwarded-for \<open>203.0.113.5, 10.0.0.1\<close> resolves to \<open>203.0.113.5\<close>.
\<close>

theorem get_client_id_without_bearer:
  assumes "\<not> (\<exists>a. authorization request = Some a \<and> startswith a ''Bearer '')"
  shows "get_client_id sha256_hexdigest request =
     ''ip:'' @
       (case x_forwarded_for request of
          Some forwarded_for \<Rightarrow>
            if forwarded_for \<noteq> [] then strip (split_comma_first forwarded_for)
            else (case client request of Some host \<Rightarrow> host | None \<Rightarrow> ''unknown'')
        | None \<Rightarrow> (case client request of Some host \<Rightarrow> host | None \<Rightarrow> ''unknown''))"
  using assms
  by (simp add: get_client_id_def split: option.splits)

theorem get_client_id_without_bearer_witness:
  "\<not> (\<exists>a. authorization anonymous_request = Some a \<and> startswith a ''Bearer '')
   \<and> get_client_id (\<lambda>s. s) anonymous_request = ''ip:203.0.113.5''"
proof -
  have nb: "\<not> (\<exists>a. authorization anonymous_request = Some a \<and> startswith a ''Bearer '')"
    by (simp add: anonymous_request_def)
  from get_client_id_without_bearer [OF nb, of "\<lambda>s. s"] nb show ?thesis
    by (simp add: anonymous_request_def strip_def split_comma_first_def isspace_def)
qed

text \<open>
  C8, as stated, fails on a forwarded-for header that is present but empty: its first
  token is the empty string, which would give the key \<open>ip:\<close>, but the code falls back
  to the peer address.
\<close>

theorem empty_forwarded_for_uses_peer:
  "authorization empty_forwarded_request = None
   \<and> x_forwarded_for empty_forwarded_request = Some ''''
   \<and> ''ip:'' @ strip (split_comma_first '''') = ''ip:''
   \<and> get_client_id (\<lambda>s. s) empty_forwarded_request = ''ip:198.51.100.7''"
  by (simp add: get_client_id_def empty_forwarded_request_def strip_def split_comma_first_def)

section \<open>What a call leaves in the store\<close>

lemma check_zset:
  "zsets (snd (check_rate_limit cfg down t client_id r)) (''rate_limit:'' @ client_id) =
     (if down ZRemRangeByScore then zsets r (''rate_limit:'' @ client_id)
      else if down ZCard
             \<or> RATE_LIMIT_REQUESTS cfg
                 \<le> int (length (filter (\<lambda>e. \<not> in_range 0 (t - RATE_LIMIT_PERIOD cfg) e)
                             (zsets r (''rate_limit:'' @ client_id))))
             \<or> down ZAdd
      then filter (\<lambda>e. \<not> in_range 0 (t - RATE_LIMIT_PERIOD cfg) e)
             (zsets r (''rate_limit:'' @ client_id))
      else if \<not> down Expire \<and> RATE_LIMIT_PERIOD cfg \<le> 0 then []
      else AList.update (str t) t
             (filter (\<lambda>e. \<not> in_range 0 (t - RATE_LIMIT_PERIOD cfg) e)
                (zsets r (''rate_limit:'' @ client_id))))"
  by (simp add: check_defs store_defs)

lemma check_other_zset:
  "k \<noteq> ''rate_limit:'' @ client_id \<Longrightarrow>
   zsets (snd (check_rate_limit cfg down t client_id r)) k = zsets r k"
  by (simp add: check_defs store_defs)

lemma check_decision:
  "fst (check_rate_limit cfg down t client_id r) =
     (down ZRemRangeByScore \<or> down ZCard
      \<or> int (length (filter (\<lambda>e. \<not> in_range 0 (t - RATE_LIMIT_PERIOD cfg) e)
                             (zsets r (''rate_limit:'' @ client_id))))
          < RATE_LIMIT_REQUESTS cfg)"
  by (simp add: check_defs store_defs)

lemma stamped_Nil: "stamped []"
  by (simp add: stamped_def)

lemma stamped_Cons:
  "stamped (p # ps) \<longleftrightarrow>
     fst p \<notin> fst ` set ps \<and> 0 \<le> snd p \<and> fst p = str (snd p) \<and> stamped ps"
  by (auto simp: stamped_def)

lemma stamped_filter: "stamped z \<Longrightarrow> stamped (filter P z)"
  by (auto simp: stamped_def distinct_map_filter)

lemma stamped_update: "stamped z \<Longrightarrow> 0 \<le> t \<Longrightarrow> stamped (AList.update (str t) t z)"
proof (induction z)
  case Nil
  then show ?case by (simp add: stamped_Cons stamped_Nil)
next
  case (Cons p ps)
  from Cons.prems(1) have fresh: "fst p \<notin> fst ` set ps" and ps: "stamped ps"
    and p: "0 \<le> snd p" "fst p = str (snd p)"
    unfolding stamped_Cons by blast+
  show ?case
  proof (cases "fst p = str t")
    case True
    then have "AList.update (str t) t (p # ps) = (str t, t) # ps" by simp
    moreover from fresh True have "str t \<notin> fst ` set ps" by simp
    with ps Cons.prems(2) have "stamped ((str t, t) # ps)"
      unfolding stamped_Cons [of "(str t, t)" ps] by simp
    ultimately show ?thesis by simp
  next
    case False
    then have "AList.update (str t) t (p # ps) = p # AList.update (str t) t ps" by simp
    moreover from fresh False have "fst p \<notin> fst ` set (AList.update (str t) t ps)"
      by (simp add: dom_update)
    with Cons.IH [OF ps Cons.prems(2)] p have "stamped (p # AList.update (str t) t ps)"
      unfolding stamped_Cons [of p "AList.update (str t) t ps"] by simp
    ultimately show ?thesis by simp
  qed
qed

lemma stamped_scores: "stamped z \<Longrightarrow> snd ` set (AList.update (str t) t z) = insert t (snd ` set z)"
proof (induction z)
  case Nil
  then show ?case by simp
next
  case (Cons p ps)
  from Cons.prems have ps: "stamped ps" by (simp add: stamped_def)
  show ?case
  proof (cases "fst p = str t")
    case True
    with Cons.prems have "str (snd p) = str t" by (simp add: stamped_def)
    then have "snd p = t" by (rule str_inj)
    with True show ?thesis by auto
  next
    case False
    with Cons.IH [OF ps] show ?thesis by auto
  qed
qed


lemma stamped_member: "stamped z \<Longrightarrow> t \<in> snd ` set z \<Longrightarrow> str t \<in> fst ` set z"
  by (force simp: stamped_def)


lemma check_stamped:
  assumes "stamped (zsets r k)" and "0 \<le> t"
  shows "stamped (zsets (snd (check_rate_limit cfg down t client_id r)) k)"
proof (cases "k = ''rate_limit:'' @ client_id")
  case True
  from assms show ?thesis
    unfolding True check_zset by (simp add: stamped_Nil stamped_filter stamped_update)
next
  case False
  with assms show ?thesis by (simp add: check_other_zset)
qed

lemma reachable_stamped: "reachable cfg r \<Longrightarrow> stamped (zsets r k)"
proof (induction arbitrary: k rule: reachable.induct)
  case start
  show ?case by (simp add: empty_redis_def stamped_Nil)
next
  case (request r t down client_id)
  then show ?case by (simp add: check_stamped)
next
  case (expiry r key)
  then show ?case by (simp add: key_expired_def stamped_Nil)
qed

lemma scores_filter:
  "snd ` set (filter (\<lambda>e. \<not> in_range lo hi e) z) = {t \<in> snd ` set z. \<not> (lo \<le> t \<and> t \<le> hi)}"
  by (auto simp: in_range_def)

lemma check_timestamps:
  assumes "stamped (zsets r (''rate_limit:'' @ client_id))"
    and "0 < RATE_LIMIT_PERIOD cfg"
  shows "timestamps (snd (check_rate_limit cfg down t client_id r)) (''rate_limit:'' @ client_id) =
     (if down ZRemRangeByScore then timestamps r (''rate_limit:'' @ client_id)
      else {s \<in> timestamps r (''rate_limit:'' @ client_id).
              \<not> (0 \<le> s \<and> s \<le> t - RATE_LIMIT_PERIOD cfg)}
           \<union> (if down ZCard
                 \<or> RATE_LIMIT_REQUESTS cfg
                     \<le> int (length (filter (\<lambda>e. \<not> in_range 0 (t - RATE_LIMIT_PERIOD cfg) e)
                             (zsets r (''rate_limit:'' @ client_id))))
                 \<or> down ZAdd then {} else {t}))"
proof -
  have "stamped (filter (\<lambda>e. \<not> in_range 0 (t - RATE_LIMIT_PERIOD cfg) e)
                  (zsets r (''rate_limit:'' @ client_id)))"
    using assms(1) by (rule stamped_filter)
  with assms(2) show ?thesis
    unfolding timestamps_def check_zset
    by (simp add: stamped_scores scores_filter del: set_filter)
qed

lemma stamped_nonneg: "stamped z \<Longrightarrow> t \<in> snd ` set z \<Longrightarrow> 0 \<le> t"
  by (auto simp: stamped_def)





section \<open>A store after one admission\<close>

lemmas eval_defs = check_defs store_defs up_def in_range_def str_eval

lemma one_admission_zset:
  "zsets one_admission_store ''rate_limit:ip:203.0.113.5'' = [(''1000'', 1000)]"
  by (simp add: one_admission_store_def eval_defs scenario_settings_def empty_redis_def)

lemma one_admission_reachable: "reachable scenario_settings one_admission_store"
  unfolding one_admission_store_def
  by (rule reachable.request [OF reachable.start]) simp

lemma one_admission_at_1060:
  "zsets (snd (check_rate_limit scenario_settings up 1060 ''ip:203.0.113.5'' one_admission_store))
     ''rate_limit:ip:203.0.113.5'' = [(''1060'', 1060)]"
  using check_zset [of scenario_settings up 1060 "''ip:203.0.113.5''" one_admission_store]
  by (simp add: one_admission_zset scenario_settings_def up_def in_range_def str_eval)

lemma one_admission_at_1059:
  "zsets (snd (check_rate_limit scenario_settings up 1059 ''ip:203.0.113.5'' one_admission_store))
     ''rate_limit:ip:203.0.113.5'' = [(''1000'', 1000), (''1059'', 1059)]"
  using check_zset [of scenario_settings up 1059 "''ip:203.0.113.5''" one_admission_store]
  by (simp add: one_admission_zset scenario_settings_def up_def in_range_def str_eval)

lemma one_admission_at_1000:
  "zsets (snd (check_rate_limit scenario_settings up 1000 ''ip:203.0.113.5'' one_admission_store))
     ''rate_limit:ip:203.0.113.5'' = [(''1000'', 1000)]"
  using check_zset [of scenario_settings up 1000 "''ip:203.0.113.5''" one_admission_store]
  by (simp add: one_admission_zset scenario_settings_def up_def in_range_def str_eval)


section \<open>Pruning\<close>

text \<open>
  C3, as amended. In a reachable store, with a positive window and every command
  answering, a call at time
  \<open>current_time\<close> leaves for its key exactly the stored timestamps \<open>t\<close> with
  \<open>current_time - RATE_LIMIT_PERIOD < t\<close>, together with \<open>current_time\<close> itself when
  the call is admitted: the prune removes exactly the timestamps \<open>t \<le> windowStart\<close> (the
  bound is inclusive) and none with \<open>t > windowStart\<close>.
\<close>

theorem prune_removes_up_to_window_start:
  assumes "reachable cfg r"
    and "0 < RATE_LIMIT_PERIOD cfg"
    and "r' = snd (check_rate_limit cfg up current_time client_id r)"
  shows "timestamps r' (''rate_limit:'' @ client_id) =
     {t \<in> timestamps r (''rate_limit:'' @ client_id). current_time - RATE_LIMIT_PERIOD cfg < t}
     \<union> (if fst (check_rate_limit cfg up current_time client_id r) then {current_time} else {})"
proof -
  have s: "stamped (zsets r (''rate_limit:'' @ client_id))"
    using assms(1) by (rule reachable_stamped)
  have "{t \<in> timestamps r (''rate_limit:'' @ client_id).
           \<not> (0 \<le> t \<and> t \<le> current_time - RATE_LIMIT_PERIOD cfg)}
      = {t \<in> timestamps r (''rate_limit:'' @ client_id). current_time - RATE_LIMIT_PERIOD cfg < t}"
    using stamped_nonneg [OF s] unfolding timestamps_def by auto
  then show ?thesis
    unfolding assms(3) check_timestamps [OF s assms(2)] check_decision
    by (simp add: up_def)
qed

theorem prune_removes_up_to_window_start_witness:
  "reachable scenario_settings one_admission_store
   \<and> 0 < RATE_LIMIT_PERIOD scenario_settings
   \<and> timestamps one_admission_store ''rate_limit:ip:203.0.113.5'' = {1000}
   \<and> timestamps (snd (check_rate_limit scenario_settings up 1060 ''ip:203.0.113.5''
          one_admission_store)) ''rate_limit:ip:203.0.113.5'' = {1060}"
proof -
  have p: "0 < RATE_LIMIT_PERIOD scenario_settings" by (simp add: scenario_settings_def)
  from prune_removes_up_to_window_start
    [OF one_admission_reachable p refl, of 1060 "''ip:203.0.113.5''"] one_admission_reachable p
  show ?thesis
    by (simp add: timestamps_def one_admission_zset one_admission_at_1060)
qed

text \<open>
  C3, as stated, fails at the boundary: after an admission at 1000 and with a window of
  60 seconds, a call at 1060 has \<open>windowStart = 1000\<close>; the timestamp 1000 is not below
  \<open>windowStart\<close>, yet the call removes it.
\<close>

theorem boundary_timestamp_is_pruned:
  "zsets one_admission_store ''rate_limit:ip:203.0.113.5'' = [(''1000'', 1000)]
   \<and> \<not> (1000 < 1060 - RATE_LIMIT_PERIOD scenario_settings)
   \<and> zsets (snd (check_rate_limit scenario_settings up 1060 ''ip:203.0.113.5''
          one_admission_store)) ''rate_limit:ip:203.0.113.5'' = [(''1060'', 1060)]"
proof -
  have "RATE_LIMIT_PERIOD scenario_settings = 60" by (simp add: scenario_settings_def)
  then show ?thesis by (simp add: one_admission_zset one_admission_at_1060)
qed

text \<open>
  C4. In a reachable store, with a positive window and the prune answered, a call at
  \<open>current_time\<close> for the key of a stored timestamp \<open>t\<close> leaves the set without \<open>t\<close>
  if and only if \<open>t + RATE_LIMIT_PERIOD \<le> current_time\<close>: \<open>t\<close> survives every earlier call
  and is gone after any call at or after \<open>t + RATE_LIMIT_PERIOD\<close>.
\<close>

theorem timestamp_pruned_iff_window_elapsed:
  assumes "reachable cfg r"
    and "t \<in> timestamps r (''rate_limit:'' @ client_id)"
    and "0 < RATE_LIMIT_PERIOD cfg"
    and "\<not> down ZRemRangeByScore"
    and "r' = snd (check_rate_limit cfg down current_time client_id r)"
  shows "t \<notin> timestamps r' (''rate_limit:'' @ client_id)
         \<longleftrightarrow> t + RATE_LIMIT_PERIOD cfg \<le> current_time"
proof -
  have s: "stamped (zsets r (''rate_limit:'' @ client_id))"
    using assms(1) by (rule reachable_stamped)
  from assms(2) have "0 \<le> t"
    using stamped_nonneg [OF s] unfolding timestamps_def by blast
  with assms(2-4) show ?thesis
    unfolding assms(5) check_timestamps [OF s assms(3)]
    by auto
qed

theorem timestamp_pruned_iff_window_elapsed_witness:
  "reachable scenario_settings one_admission_store
   \<and> 1000 \<in> timestamps one_admission_store ''rate_limit:ip:203.0.113.5''
   \<and> 0 < RATE_LIMIT_PERIOD scenario_settings
   \<and> 1000 \<in> timestamps (snd (check_rate_limit scenario_settings up 1059 ''ip:203.0.113.5''
          one_admission_store)) ''rate_limit:ip:203.0.113.5''
   \<and> 1000 \<notin> timestamps (snd (check_rate_limit scenario_settings up 1060 ''ip:203.0.113.5''
          one_admission_store)) ''rate_limit:ip:203.0.113.5''"
proof -
  have m: "1000 \<in> timestamps one_admission_store (''rate_limit:'' @ ''ip:203.0.113.5'')"
    by (simp add: timestamps_def one_admission_zset)
  have p: "0 < RATE_LIMIT_PERIOD scenario_settings" by (simp add: scenario_settings_def)
  have u: "\<not> up ZRemRangeByScore" by (simp add: up_def)
  have q: "RATE_LIMIT_PERIOD scenario_settings = 60" by (simp add: scenario_settings_def)
  note w = timestamp_pruned_iff_window_elapsed
    [where cfg = scenario_settings and r = one_admission_store and t = 1000
       and client_id = "''ip:203.0.113.5''" and down = up,
     OF one_admission_reachable m p u refl]
  from w [of 1059] w [of 1060] one_admission_reachable m p show ?thesis
    by (simp add: q)
qed

section \<open>One entry per second\<close>




section \<open>The bound on admissions\<close>

text \<open>
  The scenario of the specification: with two admissions per 60 seconds, calls at 0, 1, 2
  and 61 are admitted, admitted, rejected and admitted.
\<close>

lemma scenario_sliding_window:
  "decisions scenario_settings ''k'' [0, 1, 2, 61] empty_redis = [True, True, False, True]"
  by (simp add: eval_defs scenario_settings_def empty_redis_def)

text \<open>
  Calls within one second all write the member \<open>str t\<close>. Once two admissions are
  allowed, the count seen by each of them is at most one, and every one is admitted.
\<close>

lemma filter_at_most_one: "z = [] \<or> z = [e] \<Longrightarrow> filter P z = [] \<or> filter P z = [e]"
  by auto

lemma same_second_admits:
  assumes "2 \<le> RATE_LIMIT_REQUESTS cfg"
    and "zsets r (''rate_limit:'' @ client_id) = []
         \<or> zsets r (''rate_limit:'' @ client_id) = [(str t, t)]"
  shows "decisions cfg client_id (replicate n t) r = replicate n True"
  using assms(2)
proof (induction n arbitrary: r)
  case 0
  show ?case by simp
next
  case (Suc n)
  let ?z = "zsets r (''rate_limit:'' @ client_id)"
  let ?kept = "filter (\<lambda>e. \<not> in_range 0 (t - RATE_LIMIT_PERIOD cfg) e) ?z"
  from Suc.prems have k: "?kept = [] \<or> ?kept = [(str t, t)]" by (rule filter_at_most_one)
  then have "length ?kept \<le> 1" by auto
  with assms(1) have adm: "fst (check_rate_limit cfg up t client_id r) = True"
    unfolding check_decision by simp
  from k have "AList.update (str t) t ?kept = [(str t, t)]" by auto
  with assms(1) \<open>length ?kept \<le> 1\<close>
  have "zsets (snd (check_rate_limit cfg up t client_id r)) (''rate_limit:'' @ client_id) = []
      \<or> zsets (snd (check_rate_limit cfg up t client_id r)) (''rate_limit:'' @ client_id)
          = [(str t, t)]"
    unfolding check_zset by (simp add: up_def)
  then have "decisions cfg client_id (replicate n t) (snd (check_rate_limit cfg up t client_id r))
          = replicate n True"
    by (rule Suc.IH)
  with adm show ?case
    by (simp add: case_prod_beta)
qed

text \<open>
  C1. The claim bounds the admissions of one key within a window by
  \<^verbatim>\<open>RATE_LIMIT_REQUESTS\<close>. The code does not keep the bound: with the default settings
  (100 requests per 60 seconds) and every command answering, 101 successive calls of one
  client within the second 1700000000 are all admitted.
\<close>

theorem same_second_calls_exceed_limit:
  "RATE_LIMIT_REQUESTS default_settings = 100
   \<and> decisions default_settings ''ip:203.0.113.5'' (replicate 101 1700000000) empty_redis
       = replicate 101 True"
proof -
  have "2 \<le> RATE_LIMIT_REQUESTS default_settings" by (simp add: default_settings_def)
  moreover have "zsets empty_redis (''rate_limit:'' @ ''ip:203.0.113.5'') = []"
    by (simp add: empty_redis_def)
  ultimately have "decisions default_settings ''ip:203.0.113.5'' (replicate 101 1700000000) empty_redis
       = replicate 101 True"
    by (intro same_second_admits) simp_all
  then show ?thesis by (simp add: default_settings_def)
qed

end
